theory Spec2Isabelle
  imports Main "HOL-Library.Word"
begin

section \<open>The resumable, content-addressed downloader (util/downloader/download.go)\<close>

text \<open>
  The downloader is almost entirely effects: files, one HTTP request, a terminal and
  a copy command run in the guest. The embedding makes them explicit.
  \<^item> The host file system is a map from paths to file contents, carried in a
    \<open>world\<close> record together with a log of the externally visible actions
    (file-system mutations, HTTP requests, checksum validations, guest commands and
    terminal output) and the number of wall-clock readings taken so far.
  \<^item> Everything the code cannot decide by itself is read from an \<open>env\<close> record:
    the failure (if any) of each operating-system call, the answer of the network,
    the clock, and the repository's collaborators that are not part of this file
    (cache root, URL hash, checksum fetch and digest, float formatting, guest runner).
  \<^item> Go's \<open>error\<close> results are \<open>error option\<close> (\<open>None\<close> is \<open>nil\<close>).
  Calls to the trace logger (\<open>d.log.Tracef\<close>) and the deferred \<open>Close\<close> calls have no
  effect on any modelled state and are left out.
\<close>

subsection \<open>Data\<close>

type_synonym path = string
type_synonym bytes = "8 word list"
type_synonym int64 = "64 word"

text \<open>
  Error values. \<open>External m\<close> is an error produced outside this file (operating system,
  HTTP transport, guest runner, checksum fetch); \<open>Errorf m e\<close> is
  \<open>fmt.Errorf("m: %w", e)\<close>; \<open>UnexpectedStatus c\<close> is
  \<open>fmt.Errorf("unexpected status code: %d", c)\<close>.
\<close>

datatype error =
    External string
  | ChecksumMismatch string string
  | UnexpectedStatus int
  | Errorf string error

text \<open>
  Modelled from the spec: the type \<open>SHA\<close> (the checksum reference of a request) is
  declared in another file of the package. The spec only says that it is a reference to
  a companion checksum resource, so it is a record holding that reference.
\<close>

record SHA =
  ref :: string

text \<open>\<open>type Request struct { URL string; SHA *SHA }\<close>\<close>

record Request =
  URL :: string
  SHA :: "SHA option"

text \<open>The part of \<open>http.Request\<close> the code sets: the URL and the optional Range offset.\<close>

record http_request =
  req_URL :: string
  Range :: "int64 option"

text \<open>
  The part of \<open>http.Response\<close> the code reads. The body is the list of chunks that the
  successive \<open>Read\<close> calls deliver, followed by EOF (\<open>BodyErr = None\<close>) or by a
  transport error. \<open>ContentLength\<close> is \<open>-1\<close> when the origin declares no length.
\<close>

record http_response =
  StatusCode :: int
  ContentLength :: int64
  Body :: "bytes list"
  BodyErr :: "string option"

text \<open>The log of externally visible actions, in the order they happen.\<close>

datatype event =
    FsCreate path
  | FsTruncate path
  | FsWrite path nat bytes
  | FsRename path path
  | HttpGet http_request
  | ValidateSHA string path
  | GuestRun "string list"
  | Stdout string

record world =
  files :: "path \<rightharpoonup> bytes"
  trace :: "event list"
  ticks :: nat

record env =
  CacheDir :: string
  SHA256 :: "string \<Rightarrow> string"
  MkdirAll_err :: "string option"
  OpenFile_err :: "string option"
  Stat_err :: "string option"
  NewRequest_err :: "string \<Rightarrow> string option"
  client_Do :: "http_request \<Rightarrow> string + http_response"
  Truncate_err :: "string option"
  Seek_err :: "string option"
  Write_fault :: "nat \<Rightarrow> (nat \<times> string) option"
  Rename_err :: "path \<Rightarrow> path \<Rightarrow> string option"
  fetch_checksum :: "string \<Rightarrow> string \<Rightarrow> string + string"
  digest :: "bytes \<Rightarrow> string"
  RunQuiet :: "string list \<Rightarrow> string option"
  clock :: "nat \<Rightarrow> int"
  Sprintf_2f :: "int64 \<Rightarrow> int64 \<Rightarrow> string"

definition emit :: "event \<Rightarrow> world \<Rightarrow> world" where
  "emit e w = w\<lparr>trace := trace w @ [e]\<rparr>"

subsection \<open>terminal.Progress and the progress meter\<close>

text \<open>
  \<open>func Progress(current, total int64) string\<close>. The comparison is the signed one of
  \<open>int64\<close>. \<open>Sprintf_2f env current total\<close> stands for
  \<open>fmt.Sprintf("%.2f", float64(current)*100/float64(total))\<close>: the conversion to
  floating point and its rendering belong to Go's library and are a parameter; the
  trailing percent sign of the format string is written out.
\<close>

definition terminal_Progress :: "env \<Rightarrow> int64 \<Rightarrow> int64 \<Rightarrow> string" where
  "terminal_Progress env cur tot =
     (if tot \<le>s 0 then [] else Sprintf_2f env cur tot @ ''%'')"

text \<open>
  \<open>type Progress struct\<close>. Times are nanoseconds as \<open>int\<close>, the zero \<open>time.Time\<close> being
  0. \<open>time.Since\<close> saturates at the ends of \<open>Duration\<close>; the saturated value
  compares with half a second exactly as the unbounded difference does, so the
  difference is left unbounded. The mutex is not modelled: calls are sequential.
\<close>

record Progress =
  Total :: int64
  Current :: int64
  lastReport :: int

definition newProgress :: "int64 \<Rightarrow> int64 \<Rightarrow> Progress" where
  "newProgress tot cur = \<lparr>Total = tot, Current = cur, lastReport = 0\<rparr>"

text \<open>One reading of the wall clock (\<open>time.Now\<close>, also inside \<open>time.Since\<close>).\<close>

definition time_Now :: "env \<Rightarrow> world \<Rightarrow> int \<times> world" where
  "time_Now env w = (clock env (ticks w), w\<lparr>ticks := Suc (ticks w)\<rparr>)"

text \<open>
  \<open>func (p *Progress) Write(b []byte) (int, error)\<close>: the updated meter, the updated
  world and the returned pair.
\<close>

definition Progress_Write ::
  "env \<Rightarrow> Progress \<Rightarrow> world \<Rightarrow> bytes \<Rightarrow> Progress \<times> world \<times> (int \<times> error option)" where
  "Progress_Write env p w b =
     (let n = int (length b);
          p1 = p\<lparr>Current := Current p + word_of_int n\<rparr>;
          (t1, w1) = time_Now env w
      in if t1 - lastReport p1 < 500000000 then (p1, w1, (n, None))
         else
           let (t2, w2) = time_Now env w1;
               p2 = p1\<lparr>lastReport := t2\<rparr>;
               line = [CHR 0x0D] @ ''downloading ... ''
                      @ terminal_Progress env (Current p2) (Total p2) @ '' ''
           in (p2, emit (Stdout line) w2, (n, None)))"

subsection \<open>Cache file names\<close>

text \<open>
  \<open>CacheFilename\<close> is \<open>filepath.Join(config.CacheDir(), "caches", shautil.SHA256(url).String())\<close>.
  \<open>config.CacheDir\<close> and \<open>shautil.SHA256\<close> are not in this file and are the parameters
  \<open>CacheDir\<close> and \<open>SHA256\<close>. \<open>filepath.Join\<close> is the concatenation with separators
  that it computes for a non-empty, clean cache root and a digest without separators.
\<close>

definition CacheFilename :: "env \<Rightarrow> string \<Rightarrow> path" where
  "CacheFilename env url = CacheDir env @ ''/caches/'' @ SHA256 env url"

definition cacheDownloadingFileName :: "env \<Rightarrow> string \<Rightarrow> path" where
  "cacheDownloadingFileName env url = CacheFilename env url @ ''.downloading''"

text \<open>
  \<open>hasCache\<close>: \<open>os.Stat\<close> of the committed path returns no error. \<open>os.Stat\<close> is taken
  to succeed exactly when an entry exists at the path.
\<close>

definition hasCache :: "env \<Rightarrow> world \<Rightarrow> string \<Rightarrow> bool" where
  "hasCache env w url = (files w (CacheFilename env url) \<noteq> None)"

subsection \<open>The operating-system calls\<close>

text \<open>
  Each call fails when the environment says so, leaving the world as it is, and
  otherwise acts on the file map and logs the mutation. Directories are not entries of
  the file map, so \<open>os.MkdirAll\<close> only succeeds or fails (\<open>MkdirAll_err\<close>).
\<close>

definition contents :: "world \<Rightarrow> path \<Rightarrow> bytes" where
  "contents w name = (case files w name of None \<Rightarrow> [] | Some d \<Rightarrow> d)"

text \<open>\<open>os.OpenFile(name, os.O_CREATE|os.O_WRONLY, 0644)\<close>: creates an empty file when
  none exists, never truncates; the cursor of the new handle is 0.\<close>

definition os_OpenFile :: "env \<Rightarrow> world \<Rightarrow> path \<Rightarrow> world \<times> error option" where
  "os_OpenFile env w name =
     (case OpenFile_err env of
        Some m \<Rightarrow> (w, Some (External m))
      | None \<Rightarrow>
          (case files w name of
             None \<Rightarrow> (emit (FsCreate name) (w\<lparr>files := (files w)(name \<mapsto> [])\<rparr>), None)
           | Some d \<Rightarrow> (w, None)))"

text \<open>\<open>destFile.Stat()\<close> followed by \<open>stat.Size()\<close>.\<close>

definition File_Stat_Size :: "env \<Rightarrow> world \<Rightarrow> path \<Rightarrow> error + int64" where
  "File_Stat_Size env w name =
     (case Stat_err env of
        Some m \<Rightarrow> Inl (External m)
      | None \<Rightarrow> Inr (word_of_nat (length (contents w name))))"

text \<open>\<open>destFile.Truncate(0)\<close>.\<close>

definition File_Truncate0 :: "env \<Rightarrow> world \<Rightarrow> path \<Rightarrow> world \<times> error option" where
  "File_Truncate0 env w name =
     (case Truncate_err env of
        Some m \<Rightarrow> (w, Some (External m))
      | None \<Rightarrow> (emit (FsTruncate name) (w\<lparr>files := (files w)(name \<mapsto> [])\<rparr>), None))"

text \<open>\<open>destFile.Seek(0, io.SeekEnd)\<close> and \<open>destFile.Seek(0, io.SeekStart)\<close>: the new cursor.\<close>

definition File_Seek_End :: "env \<Rightarrow> world \<Rightarrow> path \<Rightarrow> error + nat" where
  "File_Seek_End env w name =
     (case Seek_err env of
        Some m \<Rightarrow> Inl (External m)
      | None \<Rightarrow> Inr (length (contents w name)))"

definition File_Seek_Start :: "env \<Rightarrow> error + nat" where
  "File_Seek_Start env =
     (case Seek_err env of
        Some m \<Rightarrow> Inl (External m)
      | None \<Rightarrow> Inr 0)"

text \<open>
  Writing a chunk at a cursor of a file opened without \<open>O_APPEND\<close>: the bytes under the
  chunk are overwritten, the bytes after it stay, a gap before it reads as zeros.
\<close>

definition write_at :: "bytes \<Rightarrow> nat \<Rightarrow> bytes \<Rightarrow> bytes" where
  "write_at d off c =
     take off d @ replicate (off - length d) 0 @ c @ drop (off + length c) d"

definition File_Write :: "world \<Rightarrow> path \<Rightarrow> nat \<Rightarrow> bytes \<Rightarrow> world" where
  "File_Write w name off c =
     emit (FsWrite name off c) (w\<lparr>files := (files w)(name \<mapsto> write_at (contents w name) off c)\<rparr>)"

text \<open>\<open>os.Rename(old, new)\<close>: replaces \<open>new\<close>; fails when \<open>old\<close> does not exist.\<close>

definition os_Rename :: "env \<Rightarrow> world \<Rightarrow> path \<Rightarrow> path \<Rightarrow> world \<times> error option" where
  "os_Rename env w old new =
     (case Rename_err env old new of
        Some m \<Rightarrow> (w, Some (External m))
      | None \<Rightarrow>
          (case files w old of
             None \<Rightarrow> (w, Some (External ''no such file or directory''))
           | Some d \<Rightarrow>
               (emit (FsRename old new) (w\<lparr>files := (files w)(old := None, new \<mapsto> d)\<rparr>), None)))"

text \<open>\<open>path.Base\<close> of Go's library, used in the validation error message.\<close>

definition path_Base :: "string \<Rightarrow> string" where
  "path_Base p =
     (if p = [] then ''.''
      else let q = rev (dropWhile (\<lambda>c. c = CHR ''/'') (rev p));
               b = rev (takeWhile (\<lambda>c. c \<noteq> CHR ''/'') (rev q))
           in if b = [] then ''/'' else b)"

definition strings_HasPrefix :: "string \<Rightarrow> string \<Rightarrow> bool" where
  "strings_HasPrefix s p = (take (length p) s = p)"

subsection \<open>The checksum validator\<close>

text \<open>
  Modelled from the spec: \<open>(*SHA).validateDownload(host, url, filename)\<close> is defined in
  another file of the package. By the spec (4.3) it retrieves the checksum resource
  associated with the URL and compares the expected digest with the digest computed
  from the bytes of the candidate file; it succeeds only on an exact match, a
  mismatch or a failure to fetch or parse the resource is a validation failure, and
  it changes no file. Fetching and digesting are the parameters \<open>fetch_checksum\<close> and
  \<open>digest\<close>; the invocation is logged.
\<close>

definition validateDownload ::
  "env \<Rightarrow> SHA \<Rightarrow> world \<Rightarrow> string \<Rightarrow> path \<Rightarrow> world \<times> error option" where
  "validateDownload env sha w url name =
     (let w1 = emit (ValidateSHA url name) w
      in case fetch_checksum env (ref sha) url of
           Inl m \<Rightarrow> (w1, Some (External m))
         | Inr expected \<Rightarrow>
             (case files w name of
                None \<Rightarrow> (w1, Some (External ''no such file or directory''))
              | Some d \<Rightarrow>
                  if digest env d = expected then (w1, None)
                  else (w1, Some (ChecksumMismatch expected (digest env d)))))"

subsection \<open>downloadFile\<close>

text \<open>
  Lines 87 to 137 of \<open>downloadFile\<close>: prepare the cache directory, open the in-progress
  file, read its size, build the request (with a Range header when the size is
  positive) and send it. On success: the size read and the response.
\<close>

definition open_and_request ::
  "env \<Rightarrow> world \<Rightarrow> Request \<Rightarrow> world \<times> (error + int64 \<times> http_response)" where
  "open_and_request env w r =
     (let name = cacheDownloadingFileName env (URL r)
      in case MkdirAll_err env of
           Some m \<Rightarrow> (w, Inl (Errorf ''error preparing cache dir'' (External m)))
         | None \<Rightarrow>
       (case os_OpenFile env w name of
           (w1, Some e) \<Rightarrow> (w1, Inl (Errorf ''error creating destination file'' e))
         | (w1, None) \<Rightarrow>
       (case File_Stat_Size env w1 name of
           Inl e \<Rightarrow> (w1, Inl (Errorf ''error getting file stat'' e))
         | Inr currentSize \<Rightarrow>
       (case NewRequest_err env (URL r) of
           Some m \<Rightarrow> (w1, Inl (Errorf ''error creating request'' (External m)))
         | None \<Rightarrow>
       (let req = \<lparr>req_URL = URL r,
                   Range = (if 0 <s currentSize then Some currentSize else None)\<rparr>;
            w2 = emit (HttpGet req) w1
        in case client_Do env req of
             Inl m \<Rightarrow> (w2, Inl (Errorf ''error during download'' (External m)))
           | Inr resp \<Rightarrow> (w2, Inr (currentSize, resp)))))))"

text \<open>
  Lines 139 to 172: the response policy. On success: the write cursor and the progress
  meter built by \<open>newProgress(d.log, resp.ContentLength+currentSize, currentSize)\<close>.
\<close>

definition negotiate ::
  "env \<Rightarrow> world \<Rightarrow> path \<Rightarrow> int64 \<Rightarrow> http_response \<Rightarrow> world \<times> (error + nat \<times> Progress)" where
  "negotiate env w name currentSize resp =
     (case (if StatusCode resp = 416
            then (case File_Truncate0 env w name of
                    (w1, Some e) \<Rightarrow> (w1, Inl (Errorf ''error truncating file'' e))
                  | (w1, None) \<Rightarrow> (w1, Inr 0))
            else (w, Inr currentSize)) of
        (w1, Inl e) \<Rightarrow> (w1, Inl e)
      | (w1, Inr currentSize1) \<Rightarrow>
          if StatusCode resp < 200 \<or> StatusCode resp \<ge> 300
          then (w1, Inl (UnexpectedStatus (StatusCode resp)))
          else
            (case (if StatusCode resp = 206
                   then (case File_Seek_End env w1 name of
                           Inl e \<Rightarrow> Inl (Errorf ''error seeking to end of file'' e)
                         | Inr off \<Rightarrow> Inr off)
                   else (case File_Seek_Start env of
                           Inl e \<Rightarrow> Inl (Errorf ''error seeking to start of file'' e)
                         | Inr off \<Rightarrow> Inr off)) of
               Inl e \<Rightarrow> (w1, Inl e)
             | Inr off \<Rightarrow>
                 (w1, Inr (off, newProgress (ContentLength resp + currentSize1) currentSize1))))"

text \<open>
  Lines 173 to 175: \<open>io.Copy(destFile, io.TeeReader(resp.Body, progress))\<close>. For each
  non-empty chunk read from the body, the tee reader first passes it to
  \<open>Progress.Write\<close> (which never fails), then \<open>io.Copy\<close> writes it to the file at the
  cursor. The \<open>k\<close>-th write to the file may fail after some bytes
  (\<open>Write_fault env k\<close>); the body may end with a transport error instead of EOF.
\<close>

fun io_Copy ::
  "env \<Rightarrow> path \<Rightarrow> nat \<Rightarrow> Progress \<Rightarrow> nat \<Rightarrow> bytes list \<Rightarrow> string option \<Rightarrow> world
   \<Rightarrow> world \<times> Progress \<times> error option" where
  "io_Copy env name off p k [] rerr w =
     (w, p, (case rerr of None \<Rightarrow> None | Some m \<Rightarrow> Some (External m)))"
| "io_Copy env name off p k (c # cs) rerr w =
     (if c = [] then io_Copy env name off p k cs rerr w
      else
        (case Progress_Write env p w c of
           (p1, w1, res) \<Rightarrow>
             (case Write_fault env k of
                Some (n, m) \<Rightarrow> (File_Write w1 name off (take n c), p1, Some (External m))
              | None \<Rightarrow>
                  io_Copy env name (off + length c) p1 (Suc k) cs rerr
                    (File_Write w1 name off c))))"

text \<open>Lines 87 to 179: everything up to and including the copy of the stream.\<close>

definition stream_to_file :: "env \<Rightarrow> world \<Rightarrow> Request \<Rightarrow> world \<times> error option" where
  "stream_to_file env w r =
     (let name = cacheDownloadingFileName env (URL r)
      in case open_and_request env w r of
           (w1, Inl e) \<Rightarrow> (w1, Some e)
         | (w1, Inr (currentSize, resp)) \<Rightarrow>
       (case negotiate env w1 name currentSize resp of
           (w2, Inl e) \<Rightarrow> (w2, Some e)
         | (w2, Inr (off, progress)) \<Rightarrow>
       (case io_Copy env name off progress 0 (Body resp) (BodyErr resp) w2 of
           (w3, p3, Some e) \<Rightarrow> (w3, Some (Errorf ''error writing to file'' e))
         | (w3, p3, None) \<Rightarrow> (w3, None))))"

text \<open>
  Lines 181 to 194: validate when a checksum reference is present, quarantine on
  failure (the result of that rename is dropped), otherwise commit by renaming.
\<close>

definition validate_msg :: "string \<Rightarrow> string" where
  "validate_msg url =
     ''error validating SHA sum for '' @ [CHR 0x27] @ path_Base url @ [CHR 0x27]"

definition validate_and_commit :: "env \<Rightarrow> world \<Rightarrow> Request \<Rightarrow> world \<times> error option" where
  "validate_and_commit env w r =
     (let name = cacheDownloadingFileName env (URL r)
      in case (case SHA r of
                 None \<Rightarrow> (w, None)
               | Some sha \<Rightarrow> validateDownload env sha w (URL r) name) of
           (w1, Some e) \<Rightarrow>
             (fst (os_Rename env w1 name (name @ ''.invalid'')),
              Some (Errorf (validate_msg (URL r)) e))
         | (w1, None) \<Rightarrow> os_Rename env w1 name (CacheFilename env (URL r)))"

definition downloadFile :: "env \<Rightarrow> world \<Rightarrow> Request \<Rightarrow> world \<times> error option" where
  "downloadFile env w r =
     (case stream_to_file env w r of
        (w1, Some e) \<Rightarrow> (w1, Some e)
      | (w1, None) \<Rightarrow> validate_and_commit env w1 r)"

subsection \<open>Download and DownloadToGuest\<close>

definition download_msg :: "string \<Rightarrow> string" where
  "download_msg url = ''error downloading '' @ [CHR 0x27] @ url @ [CHR 0x27]"

definition Download :: "env \<Rightarrow> world \<Rightarrow> Request \<Rightarrow> world \<times> (error + path)" where
  "Download env w r =
     (if \<not> hasCache env w (URL r)
      then (case downloadFile env w r of
              (w1, Some e) \<Rightarrow> (w1, Inl (Errorf (download_msg (URL r)) e))
            | (w1, None) \<Rightarrow> (w1, Inr (CacheFilename env (URL r))))
      else (w, Inr (CacheFilename env (URL r))))"

text \<open>\<open>guest.RunQuiet(args...)\<close>: the external copy capability; the call is logged.\<close>

definition guest_RunQuiet :: "env \<Rightarrow> world \<Rightarrow> string list \<Rightarrow> world \<times> error option" where
  "guest_RunQuiet env w args =
     (emit (GuestRun args) w, map_option External (RunQuiet env args))"

definition DownloadToGuest :: "env \<Rightarrow> world \<Rightarrow> Request \<Rightarrow> string \<Rightarrow> world \<times> error option" where
  "DownloadToGuest env w r filename =
     (if strings_HasPrefix (URL r) ''/''
      then guest_RunQuiet env w [''cp'', URL r, filename]
      else (case Download env w r of
              (w1, Inl e) \<Rightarrow> (w1, Some e)
            | (w1, Inr cacheFile) \<Rightarrow> guest_RunQuiet env w1 [''cp'', cacheFile, filename]))"

subsection \<open>Reading the log\<close>

text \<open>
  \<open>touches c ev\<close>: the event is a file-system mutation that names the path \<open>c\<close>.
  \<open>new_events w w'\<close> are the events logged between two worlds, when \<open>w'\<close> extends
  the log of \<open>w\<close>; \<open>only_events P w w'\<close> says that all of them satisfy \<open>P\<close>.
  \<open>quiet_on c w w'\<close>: going from \<open>w\<close> to \<open>w'\<close>, nothing was done to the path
  \<open>c\<close> and the entry at \<open>c\<close> is what it was.
\<close>

fun touches :: "path \<Rightarrow> event \<Rightarrow> bool" where
  "touches c (FsCreate p) = (p = c)"
| "touches c (FsTruncate p) = (p = c)"
| "touches c (FsWrite p off b) = (p = c)"
| "touches c (FsRename old new) = (old = c \<or> new = c)"
| "touches c (HttpGet req) = False"
| "touches c (ValidateSHA url p) = False"
| "touches c (GuestRun args) = False"
| "touches c (Stdout s) = False"

definition extends_log :: "world \<Rightarrow> world \<Rightarrow> bool" where
  "extends_log w w' = (take (length (trace w)) (trace w') = trace w)"

definition new_events :: "world \<Rightarrow> world \<Rightarrow> event list" where
  "new_events w w' = drop (length (trace w)) (trace w')"

definition only_events :: "(event \<Rightarrow> bool) \<Rightarrow> world \<Rightarrow> world \<Rightarrow> bool" where
  "only_events P w w' = (extends_log w w' \<and> list_all P (new_events w w'))"

definition quiet_on :: "path \<Rightarrow> world \<Rightarrow> world \<Rightarrow> bool" where
  "quiet_on c w w' =
     (only_events (\<lambda>ev. \<not> touches c ev) w w' \<and> files w' c = files w c)"

fun is_HttpGet :: "event \<Rightarrow> bool" where
  "is_HttpGet (HttpGet req) = True"
| "is_HttpGet ev = False"

fun is_ValidateSHA :: "event \<Rightarrow> bool" where
  "is_ValidateSHA (ValidateSHA url p) = True"
| "is_ValidateSHA ev = False"

definition count_HttpGet :: "world \<Rightarrow> world \<Rightarrow> nat" where
  "count_HttpGet w w' = length (filter is_HttpGet (new_events w w'))"

subsection \<open>A concrete run\<close>

text \<open>
  An environment without failures whose origin answers every request with
  \<open>200\<close> and the three bytes 1, 2, 3, an empty initial world, and a request with a
  checksum reference that the three bytes satisfy. The theorems below are instantiated
  at them.
\<close>

definition env0 :: env where
  "env0 = \<lparr>CacheDir = ''/c'', SHA256 = (\<lambda>u. u),
     MkdirAll_err = None, OpenFile_err = None, Stat_err = None,
     NewRequest_err = (\<lambda>u. None),
     client_Do = (\<lambda>req. Inr \<lparr>StatusCode = 200, ContentLength = 3,
                               Body = [[1, 2, 3]], BodyErr = None\<rparr>),
     Truncate_err = None, Seek_err = None, Write_fault = (\<lambda>k. None),
     Rename_err = (\<lambda>old new. None),
     fetch_checksum = (\<lambda>rf url. Inr ''ok''),
     digest = (\<lambda>d. if d = [1, 2, 3] then ''ok'' else ''bad''),
     RunQuiet = (\<lambda>args. None),
     clock = (\<lambda>k. 1000000000 * (int k + 1)),
     Sprintf_2f = (\<lambda>c t. ''?'')\<rparr>"

definition w0 :: world where
  "w0 = \<lparr>files = Map.empty, trace = [], ticks = 0\<rparr>"

definition r0 :: Request where
  "r0 = \<lparr>URL = ''u'', SHA = Some \<lparr>ref = ''s''\<rparr>\<rparr>"

text \<open>The same origin with a checksum resource that the three bytes do not satisfy.\<close>

definition env_mismatch :: env where
  "env_mismatch = env0\<lparr>fetch_checksum := (\<lambda>rf url. Inr ''other'')\<rparr>"

text \<open>The same origin whose body breaks after two bytes.\<close>

definition env_broken :: env where
  "env_broken = env0\<lparr>client_Do := (\<lambda>req. Inr \<lparr>StatusCode = 200, ContentLength = 3,
                      Body = [[1, 2]], BodyErr = Some ''connection reset''\<rparr>)\<rparr>"

text \<open>
  A resumed transfer: five bytes are already in the in-progress file of \<open>''u''\<close>,
  and the request carries no checksum reference. The origin answers \<open>416\<close> (with
  a one-byte body), or ignores the Range header and answers \<open>200\<close> with the full
  ten bytes, or answers \<open>206\<close> with three more bytes and no declared length.
\<close>

definition w_partial :: world where
  "w_partial = \<lparr>files = [''/c/caches/u.downloading'' \<mapsto> [9, 9, 9, 9, 9]], trace = [],
                 ticks = 0\<rparr>"

definition r_plain :: Request where
  "r_plain = \<lparr>URL = ''u'', SHA = None\<rparr>"

definition resp_416 :: http_response where
  "resp_416 = \<lparr>StatusCode = 416, ContentLength = 1, Body = [[7]], BodyErr = None\<rparr>"

definition env_416 :: env where
  "env_416 = env0\<lparr>client_Do := (\<lambda>req. Inr resp_416)\<rparr>"

definition resp_full :: http_response where
  "resp_full = \<lparr>StatusCode = 200, ContentLength = 10,
                 Body = [[1, 2, 3, 4, 5, 6, 7, 8, 9, 10]], BodyErr = None\<rparr>"

definition env_full :: env where
  "env_full = env0\<lparr>client_Do := (\<lambda>req. Inr resp_full)\<rparr>"

definition resp_unknown :: http_response where
  "resp_unknown = \<lparr>StatusCode = 206, ContentLength = - 1, Body = [[1, 2, 3]],
                    BodyErr = None\<rparr>"

definition env_unknown :: env where
  "env_unknown = env0\<lparr>client_Do := (\<lambda>req. Inr resp_unknown)\<rparr>"

text \<open>A request for a file of the local file system, with a checksum reference.\<close>

definition r_local :: Request where
  "r_local = \<lparr>URL = ''/f'', SHA = Some \<lparr>ref = ''s''\<rparr>\<rparr>"

section \<open>Properties\<close>

subsection \<open>Unfolding the model\<close>

lemmas model_defs =
  downloadFile_def stream_to_file_def open_and_request_def negotiate_def
  validate_and_commit_def validateDownload_def os_OpenFile_def File_Stat_Size_def
  File_Truncate0_def File_Seek_End_def File_Seek_Start_def File_Write_def write_at_def
  os_Rename_def contents_def emit_def Progress_Write_def time_Now_def newProgress_def
  terminal_Progress_def CacheFilename_def cacheDownloadingFileName_def Let_def

subsection \<open>What each phase logs and which files it changes\<close>

lemma extends_log_iff: "extends_log w w' \<longleftrightarrow> (\<exists>new. trace w' = trace w @ new)"
  unfolding extends_log_def
  by (metis append_eq_conv_conj)

lemma new_events_append: "trace w' = trace w @ new \<Longrightarrow> new_events w w' = new"
  by (simp add: new_events_def)

lemma new_events_trans:
  "extends_log w w1 \<Longrightarrow> trace w' = trace w1 @ xs \<Longrightarrow> new_events w w' = new_events w w1 @ xs"
  by (auto simp: extends_log_iff new_events_def)

lemma new_events_split:
  "extends_log w w1 \<Longrightarrow> extends_log w1 w2 \<Longrightarrow> new_events w w2 = new_events w w1 @ new_events w1 w2"
  by (auto simp: extends_log_iff new_events_def)

lemma only_events_iff:
  "only_events P w w' \<longleftrightarrow> (\<exists>new. trace w' = trace w @ new \<and> (\<forall>ev\<in>set new. P ev))"
  unfolding only_events_def extends_log_iff
  by (auto simp: new_events_append list_all_iff)

lemma only_events_refl: "only_events P w w"
  by (simp add: only_events_iff)

lemma only_events_trans:
  "only_events P w w1 \<Longrightarrow> only_events P w1 w2 \<Longrightarrow> only_events P w w2"
  unfolding only_events_iff by auto

lemma only_events_extends: "only_events P w w' \<Longrightarrow> extends_log w w'"
  by (simp add: only_events_def)

lemma names_distinct:
  "cacheDownloadingFileName env url \<noteq> CacheFilename env url"
  "cacheDownloadingFileName env url @ ''.invalid'' \<noteq> CacheFilename env url"
  "CacheFilename env url \<noteq> cacheDownloadingFileName env url"
  "cacheDownloadingFileName env url @ ''.invalid'' \<noteq> cacheDownloadingFileName env url"
  by (simp_all add: cacheDownloadingFileName_def)

text \<open>Each phase logs only what it does to its own file, and changes no other file.\<close>

lemma Progress_Write_frame:
  assumes "\<And>s. P (Stdout s)"
  shows "only_events P w (fst (snd (Progress_Write env p w b)))
         \<and> files (fst (snd (Progress_Write env p w b))) = files w"
  using assms
  by (simp add: Progress_Write_def time_Now_def only_events_iff emit_def Let_def)

lemma open_and_request_frame:
  assumes "P (FsCreate (cacheDownloadingFileName env (URL r)))" and "\<And>q. P (HttpGet q)"
    and "c \<noteq> cacheDownloadingFileName env (URL r)"
  shows "only_events P w (fst (open_and_request env w r))
         \<and> files (fst (open_and_request env w r)) c = files w c"
  using assms
  by (auto simp: open_and_request_def os_OpenFile_def only_events_iff emit_def Let_def
      split: option.splits sum.splits prod.splits)

lemma negotiate_frame:
  assumes "P (FsTruncate name)" and "c \<noteq> name"
  shows "only_events P w (fst (negotiate env w name cs resp))
         \<and> files (fst (negotiate env w name cs resp)) c = files w c"
  using assms
  by (auto simp: negotiate_def File_Truncate0_def only_events_iff emit_def Let_def
      split: option.splits sum.splits prod.splits)

lemma File_Write_frame:
  assumes "P (FsWrite name off b)" and "c \<noteq> name"
  shows "only_events P w (File_Write w name off b) \<and> files (File_Write w name off b) c = files w c"
  using assms by (simp add: File_Write_def only_events_iff emit_def)

lemma io_Copy_frame:
  assumes "\<And>s. P (Stdout s)" and "\<And>off b. P (FsWrite name off b)" and "c \<noteq> name"
  shows "only_events P w (fst (io_Copy env name off p k cs rerr w))
         \<and> files (fst (io_Copy env name off p k cs rerr w)) c = files w c"
proof (induction cs arbitrary: off p k w)
  case Nil
  then show ?case by (simp add: only_events_refl)
next
  case (Cons b cs)
  show ?case
  proof (cases "b = []")
    case True
    then show ?thesis using Cons by simp
  next
    case False
    obtain p1 w1 res where pw: "Progress_Write env p w b = (p1, w1, res)"
      by (cases "Progress_Write env p w b") auto
    have q1: "only_events P w w1" "files w1 c = files w c"
      using Progress_Write_frame [of P w env p b] assms(1) pw by simp_all
    show ?thesis
    proof (cases "Write_fault env k")
      case None
      let ?w2 = "File_Write w1 name off b"
      have q2: "only_events P w1 ?w2" "files ?w2 c = files w1 c"
        using File_Write_frame [of P name off b c w1] assms by simp_all
      have q3: "only_events P ?w2 (fst (io_Copy env name (off + length b) p1 (Suc k) cs rerr ?w2))"
        "files (fst (io_Copy env name (off + length b) p1 (Suc k) cs rerr ?w2)) c = files ?w2 c"
        by (simp_all add: Cons.IH)
      have "only_events P w (fst (io_Copy env name (off + length b) p1 (Suc k) cs rerr ?w2))"
        using q1(1) q2(1) q3(1) by (blast intro: only_events_trans)
      then show ?thesis
        using False pw None q1(2) q2(2) q3(2) by simp
    next
      case (Some a)
      obtain n m where a: "a = (n, m)" by (cases a)
      let ?w2 = "File_Write w1 name off (take n b)"
      have q2: "only_events P w1 ?w2" "files ?w2 c = files w1 c"
        using File_Write_frame [of P name off "take n b" c w1] assms by simp_all
      have "only_events P w ?w2"
        using q1(1) q2(1) by (blast intro: only_events_trans)
      then show ?thesis
        using False pw Some a q1(2) q2(2) by simp
    qed
  qed
qed

text \<open>The stream phase unfolded along its three steps.\<close>

lemma stream_to_file_cases:
  obtains (request_failed) w1 e where
      "open_and_request env w r = (w1, Inl e)" "stream_to_file env w r = (w1, Some e)"
  | (negotiation_failed) w1 currentSize resp w2 e where
      "open_and_request env w r = (w1, Inr (currentSize, resp))"
      "negotiate env w1 (cacheDownloadingFileName env (URL r)) currentSize resp = (w2, Inl e)"
      "stream_to_file env w r = (w2, Some e)"
  | (copied) w1 currentSize resp w2 off progress w3 p3 res where
      "open_and_request env w r = (w1, Inr (currentSize, resp))"
      "negotiate env w1 (cacheDownloadingFileName env (URL r)) currentSize resp
         = (w2, Inr (off, progress))"
      "io_Copy env (cacheDownloadingFileName env (URL r)) off progress 0 (Body resp)
         (BodyErr resp) w2 = (w3, p3, res)"
      "stream_to_file env w r = (w3, map_option (Errorf ''error writing to file'') res)"
proof -
  let ?d = "cacheDownloadingFileName env (URL r)"
  obtain w1 res1 where o: "open_and_request env w r = (w1, res1)"
    by (cases "open_and_request env w r")
  show thesis
  proof (cases res1)
    case (Inl e)
    then show thesis using o request_failed by (simp add: stream_to_file_def)
  next
    case (Inr a)
    obtain currentSize resp where a: "a = (currentSize, resp)" by (cases a)
    obtain w2 res2 where n: "negotiate env w1 ?d currentSize resp = (w2, res2)"
      by (cases "negotiate env w1 ?d currentSize resp")
    show thesis
    proof (cases res2)
      case (Inl e)
      then show thesis using o Inr a n negotiation_failed [of w1 currentSize resp w2 e]
        by (simp add: stream_to_file_def)
    next
      case Inr2: (Inr b)
      obtain off progress where b: "b = (off, progress)" by (cases b)
      obtain w3 p3 res where
        k: "io_Copy env ?d off progress 0 (Body resp) (BodyErr resp) w2 = (w3, p3, res)"
        by (cases "io_Copy env ?d off progress 0 (Body resp) (BodyErr resp) w2") auto
      have "stream_to_file env w r = (w3, map_option (Errorf ''error writing to file'') res)"
        using o Inr a n Inr2 b k by (cases res) (simp_all add: stream_to_file_def)
      then show thesis using o Inr a n Inr2 b k copied by simp
    qed
  qed
qed

lemma stream_to_file_frame:
  assumes "P (FsCreate (cacheDownloadingFileName env (URL r)))"
    and "P (FsTruncate (cacheDownloadingFileName env (URL r)))"
    and "\<And>off b. P (FsWrite (cacheDownloadingFileName env (URL r)) off b)"
    and "\<And>q. P (HttpGet q)" and "\<And>s. P (Stdout s)"
    and "c \<noteq> cacheDownloadingFileName env (URL r)"
  shows "only_events P w (fst (stream_to_file env w r))
         \<and> files (fst (stream_to_file env w r)) c = files w c"
proof -
  let ?d = "cacheDownloadingFileName env (URL r)"
  have o: "only_events P w (fst (open_and_request env w r))
      \<and> files (fst (open_and_request env w r)) c = files w c" for w
    using assms by (intro open_and_request_frame) auto
  have n: "only_events P w (fst (negotiate env w ?d cs resp))
      \<and> files (fst (negotiate env w ?d cs resp)) c = files w c" for w cs resp
    using assms by (intro negotiate_frame) auto
  have k: "only_events P w (fst (io_Copy env ?d off p k cs rerr w))
      \<and> files (fst (io_Copy env ?d off p k cs rerr w)) c = files w c" for w off p k cs rerr
    using assms by (intro io_Copy_frame) auto
  show ?thesis
  proof (cases rule: stream_to_file_cases [of env w r])
    case (request_failed w1 e)
    then show ?thesis using o [of w] by simp
  next
    case (negotiation_failed w1 currentSize resp w2 e)
    then show ?thesis using o [of w] n [of w1 currentSize resp]
      by (auto intro: only_events_trans)
  next
    case (copied w1 currentSize resp w2 off progress w3 p3 res)
    then show ?thesis
      using o [of w] n [of w1 currentSize resp]
        k [of w2 off progress 0 "Body resp" "BodyErr resp"]
      by (auto intro: only_events_trans)
  qed
qed

lemma quiet_on_trans: "quiet_on c w w1 \<Longrightarrow> quiet_on c w1 w2 \<Longrightarrow> quiet_on c w w2"
  unfolding quiet_on_def by (auto intro: only_events_trans)

lemma stream_to_file_quiet:
  "quiet_on (CacheFilename env (URL r)) w (fst (stream_to_file env w r))"
  unfolding quiet_on_def
  by (rule stream_to_file_frame) (simp_all add: names_distinct)

lemma validate_and_commit_error:
  assumes "validate_and_commit env w1 r = (w', Some e)"
  shows "quiet_on (CacheFilename env (URL r)) w1 w'"
  using assms names_distinct [of env "URL r"]
  by (auto simp: validate_and_commit_def validateDownload_def os_Rename_def quiet_on_def
      only_events_iff emit_def Let_def split: option.splits sum.splits if_splits)

lemma validate_and_commit_ok:
  assumes "validate_and_commit env w1 r = (w', None)"
  shows "\<exists>data. files w1 (cacheDownloadingFileName env (URL r)) = Some data
     \<and> files w' = (files w1)(cacheDownloadingFileName env (URL r) := None,
                              CacheFilename env (URL r) \<mapsto> data)
     \<and> trace w' = trace w1
          @ (case SHA r of None \<Rightarrow> []
             | Some sha \<Rightarrow> [ValidateSHA (URL r) (cacheDownloadingFileName env (URL r))])
          @ [FsRename (cacheDownloadingFileName env (URL r)) (CacheFilename env (URL r))]
     \<and> (case SHA r of None \<Rightarrow> True
         | Some sha \<Rightarrow> fetch_checksum env (ref sha) (URL r) = Inr (digest env data))"
  using assms
  by (auto simp: validate_and_commit_def validateDownload_def os_Rename_def
      emit_def Let_def split: option.splits sum.splits if_splits)

subsection \<open>The progress meter\<close>

lemma Progress_Write_result:
  "snd (snd (Progress_Write env p w b)) = (int (length b), None)"
  by (simp add: Progress_Write_def Let_def split: prod.splits)

lemma Progress_Write_Current:
  "Current (fst (Progress_Write env p w b)) = Current p + word_of_nat (length b)"
  by (simp add: Progress_Write_def Let_def split: prod.splits)

lemma Progress_Write_Total:
  "Total (fst (Progress_Write env p w b)) = Total p"
  by (simp add: Progress_Write_def Let_def split: prod.splits)

text \<open>
  C9. For every byte slice \<open>b\<close>, \<open>Progress.Write\<close> returns \<open>(len(b), nil)\<close>, so it
  never returns an error, and it adds \<open>len(b)\<close> to the \<open>Current\<close> counter (an
  \<open>int64\<close> addition), whether the half-second throttle lets the call print or not.
\<close>

theorem C9_Progress_Write_total_exact:
  "snd (snd (Progress_Write env p w b)) = (int (length b), None)
   \<and> Current (fst (Progress_Write env p w b)) = Current p + word_of_nat (length b)"
  by (simp add: Progress_Write_def Let_def split: prod.splits)

subsection \<open>Commit atomicity\<close>

text \<open>
  C1. For every attempt \<open>downloadFile env w r\<close>, whatever the environment does: the log
  only grows; if the attempt returns an error (at any step: directory preparation,
  open, stat, request construction, transport, truncation, status check, seek, stream
  copy, validation, or the final rename itself), no logged file-system mutation names
  the committed path and the entry at the committed path is what it was before, so no
  file is created there; if the attempt succeeds, the stream phase had succeeded, the
  last logged event is the rename of the in-progress file to the committed path, no
  earlier event names the committed path, the committed entry is the in-progress file
  as the stream phase left it, and, when a checksum reference is supplied, the
  expected digest is the digest of the committed bytes.
\<close>

theorem C1_commit_atomicity:
  assumes "downloadFile env w r = (w', res)"
  shows "extends_log w w' \<and>
    (case res of
       Some e \<Rightarrow>
         list_all (\<lambda>ev. \<not> touches (CacheFilename env (URL r)) ev) (new_events w w')
         \<and> files w' (CacheFilename env (URL r)) = files w (CacheFilename env (URL r))
     | None \<Rightarrow>
         snd (stream_to_file env w r) = None
         \<and> new_events w w' \<noteq> []
         \<and> last (new_events w w')
             = FsRename (cacheDownloadingFileName env (URL r)) (CacheFilename env (URL r))
         \<and> list_all (\<lambda>ev. \<not> touches (CacheFilename env (URL r)) ev)
              (butlast (new_events w w'))
         \<and> files w' (CacheFilename env (URL r))
             = files (fst (stream_to_file env w r)) (cacheDownloadingFileName env (URL r))
         \<and> files w' (CacheFilename env (URL r)) \<noteq> None
         \<and> (case SHA r of
               None \<Rightarrow> True
             | Some sha \<Rightarrow>
                 fetch_checksum env (ref sha) (URL r)
                   = Inr (digest env (contents w' (CacheFilename env (URL r))))))"
proof -
  let ?c = "CacheFilename env (URL r)"
  let ?d = "cacheDownloadingFileName env (URL r)"
  obtain w1 res1 where s: "stream_to_file env w r = (w1, res1)"
    by (cases "stream_to_file env w r")
  have q1: "quiet_on ?c w w1"
    using stream_to_file_quiet [of env r w] s by simp
  show ?thesis
  proof (cases res1)
    case (Some e)
    then have "w' = w1" "res = Some e"
      using assms s by (simp_all add: downloadFile_def)
    then show ?thesis using q1 by (simp add: quiet_on_def only_events_def)
  next
    case None
    then have v: "validate_and_commit env w1 r = (w', res)"
      using assms s by (simp add: downloadFile_def)
    show ?thesis
    proof (cases res)
      case (Some e)
      then have "quiet_on ?c w1 w'"
        using v by (simp add: validate_and_commit_error)
      then have "quiet_on ?c w w'" using q1 by (auto intro: quiet_on_trans)
      then show ?thesis using Some by (simp add: quiet_on_def only_events_def)
    next
      case rn: None
      let ?vs = "case SHA r of None \<Rightarrow> [] | Some sha \<Rightarrow> [ValidateSHA (URL r) ?d]"
      from validate_and_commit_ok [OF v [unfolded rn]]
      obtain data where
        d: "files w1 ?d = Some data"
        and f: "files w' = (files w1)(?d := None, ?c \<mapsto> data)"
        and t: "trace w' = trace w1 @ ?vs @ [FsRename ?d ?c]"
        and k: "case SHA r of None \<Rightarrow> True
                | Some sha \<Rightarrow> fetch_checksum env (ref sha) (URL r) = Inr (digest env data)"
        by blast
      have e1: "extends_log w w1" and l1: "list_all (\<lambda>ev. \<not> touches ?c ev) (new_events w w1)"
        using q1 by (simp_all add: quiet_on_def only_events_def)
      have ne: "new_events w w' = (new_events w w1 @ ?vs) @ [FsRename ?d ?c]"
        using new_events_trans [OF e1 t] by simp
      have ex: "extends_log w w'"
        using e1 t by (auto simp: extends_log_iff)
      have vs: "list_all (\<lambda>ev. \<not> touches ?c ev) ?vs"
        by (simp split: option.splits)
      have fc: "files w' ?c = Some data" using f by simp
      have "contents w' ?c = data" using fc by (simp add: contents_def)
      then have k': "case SHA r of None \<Rightarrow> True
                | Some sha \<Rightarrow> fetch_checksum env (ref sha) (URL r)
                     = Inr (digest env (contents w' ?c))"
        using k by (auto split: option.splits)
      show ?thesis
        using rn s None ex fc d l1 vs k' unfolding ne
        by (simp del: append_assoc)
    qed
  qed
qed

theorem C1_commit_atomicity_witness:
  "snd (downloadFile env0 w0 r0) = None
   \<and> last (new_events w0 (fst (downloadFile env0 w0 r0)))
       = FsRename ''/c/caches/u.downloading'' ''/c/caches/u''
   \<and> list_all (\<lambda>ev. \<not> touches ''/c/caches/u'' ev)
        (butlast (new_events w0 (fst (downloadFile env0 w0 r0))))
   \<and> files (fst (downloadFile env0 w0 r0)) ''/c/caches/u'' = Some [1, 2, 3]
   \<and> fetch_checksum env0 ''s'' ''u'' = Inr (digest env0 [1, 2, 3])
   \<and> snd (downloadFile env_broken w0 r0)
       = Some (Errorf ''error writing to file'' (External ''connection reset''))
   \<and> files (fst (downloadFile env_broken w0 r0)) ''/c/caches/u.downloading'' = Some [1, 2]
   \<and> files (fst (downloadFile env_broken w0 r0)) ''/c/caches/u'' = None
   \<and> list_all (\<lambda>ev. \<not> touches ''/c/caches/u'' ev)
        (new_events w0 (fst (downloadFile env_broken w0 r0)))"
proof -
  have rb: "snd (downloadFile env_broken w0 r0)
      = Some (Errorf ''error writing to file'' (External ''connection reset''))"
    by (simp add: model_defs env_broken_def env0_def w0_def r0_def)
  then have pb: "downloadFile env_broken w0 r0 = (fst (downloadFile env_broken w0 r0),
      Some (Errorf ''error writing to file'' (External ''connection reset'')))"
    by (metis prod.collapse)
  have cb: "CacheFilename env_broken (URL r0) = ''/c/caches/u''"
    by (simp add: CacheFilename_def env_broken_def env0_def r0_def)
  have fb: "files (fst (downloadFile env_broken w0 r0)) ''/c/caches/u.downloading'' = Some [1, 2]"
    by (simp add: model_defs env_broken_def env0_def w0_def r0_def)
  have broken: "files (fst (downloadFile env_broken w0 r0)) ''/c/caches/u'' = None
     \<and> list_all (\<lambda>ev. \<not> touches ''/c/caches/u'' ev)
          (new_events w0 (fst (downloadFile env_broken w0 r0)))"
    using C1_commit_atomicity [OF pb] unfolding cb by (simp add: w0_def)
  have r: "snd (downloadFile env0 w0 r0) = None"
    by (simp add: model_defs env0_def w0_def r0_def)
  have c: "CacheFilename env0 (URL r0) = ''/c/caches/u''"
    "cacheDownloadingFileName env0 (URL r0) = ''/c/caches/u.downloading''"
    by (simp_all add: CacheFilename_def cacheDownloadingFileName_def env0_def r0_def)
  have f: "files (fst (downloadFile env0 w0 r0)) ''/c/caches/u'' = Some [1, 2, 3]"
    by (simp add: model_defs env0_def w0_def r0_def)
  have s: "SHA r0 = Some \<lparr>ref = ''s''\<rparr>" by (simp add: r0_def)
  have p: "downloadFile env0 w0 r0 = (fst (downloadFile env0 w0 r0), None)"
    using r by (metis prod.collapse)
  have u: "URL r0 = ''u''" by (simp add: r0_def)
  show ?thesis
    using C1_commit_atomicity [OF p] rb fb broken unfolding c
    by (simp add: r f s u contents_def)
qed

subsection \<open>Checksum enforcement and quarantine\<close>

lemma open_and_request_exists:
  assumes "open_and_request env w r = (w1, Inr x)"
  shows "files w1 (cacheDownloadingFileName env (URL r)) \<noteq> None"
  using assms
  by (auto simp: open_and_request_def os_OpenFile_def emit_def Let_def
      split: option.splits sum.splits prod.splits)

lemma negotiate_exists:
  assumes "files w name \<noteq> None"
  shows "files (fst (negotiate env w name cs resp)) name \<noteq> None"
  using assms
  by (auto simp: negotiate_def File_Truncate0_def emit_def
      split: option.splits sum.splits prod.splits)

lemma io_Copy_exists:
  assumes "files w name \<noteq> None"
  shows "files (fst (io_Copy env name off p k cs rerr w)) name \<noteq> None"
  using assms
proof (induction cs arbitrary: off p k w)
  case Nil
  then show ?case by simp
next
  case (Cons b cs)
  have "files (File_Write w' name off' b') name \<noteq> None" for w' off' b'
    by (simp add: File_Write_def emit_def)
  then show ?case using Cons
    by (auto split: prod.splits option.splits)
qed

lemma stream_to_file_exists:
  assumes "stream_to_file env w r = (w1, None)"
  shows "files w1 (cacheDownloadingFileName env (URL r)) \<noteq> None"
proof (cases rule: stream_to_file_cases [of env w r])
  case (request_failed w1 e)
  then show ?thesis using assms by simp
next
  case (negotiation_failed w1 currentSize resp w2 e)
  then show ?thesis using assms by simp
next
  case (copied wa currentSize resp wb off progress wc p3 res)
  have "files wa (cacheDownloadingFileName env (URL r)) \<noteq> None"
    using copied(1) by (rule open_and_request_exists)
  then have "files (fst (negotiate env wa (cacheDownloadingFileName env (URL r))
      currentSize resp)) (cacheDownloadingFileName env (URL r)) \<noteq> None"
    by (rule negotiate_exists)
  then have "files wb (cacheDownloadingFileName env (URL r)) \<noteq> None"
    using copied(2) by simp
  then have "files (fst (io_Copy env (cacheDownloadingFileName env (URL r)) off progress 0
      (Body resp) (BodyErr resp) wb)) (cacheDownloadingFileName env (URL r)) \<noteq> None"
    by (rule io_Copy_exists)
  then have "files wc (cacheDownloadingFileName env (URL r)) \<noteq> None"
    using copied(3) by simp
  then show ?thesis using copied(4) assms by simp
qed

text \<open>What an attempt does once the stream is in the file and the validator rejects it.\<close>

lemma downloadFile_rejected:
  assumes "SHA r = Some sha"
    and "stream_to_file env w r = (w1, None)"
    and "snd (validateDownload env sha w1 (URL r) (cacheDownloadingFileName env (URL r))) = Some e"
  shows "downloadFile env w r =
     (fst (os_Rename env (emit (ValidateSHA (URL r) (cacheDownloadingFileName env (URL r))) w1)
            (cacheDownloadingFileName env (URL r))
            (cacheDownloadingFileName env (URL r) @ ''.invalid'')),
      Some (Errorf (validate_msg (URL r)) e))"
  using assms
  by (auto simp: downloadFile_def validate_and_commit_def validateDownload_def Let_def
      split: sum.splits option.splits if_splits)

lemma validateDownload_mismatch:
  assumes "fetch_checksum env (ref sha) url = Inr expected"
    and "files w name = Some data" and "digest env data \<noteq> expected"
  shows "snd (validateDownload env sha w url name)
           = Some (ChecksumMismatch expected (digest env data))"
  using assms by (simp add: validateDownload_def Let_def)

lemma quarantine_rename:
  assumes "files w d = Some data" "q \<noteq> d"
  shows "fst (os_Rename env (emit ev w) d q) =
     (case Rename_err env d q of
        Some m \<Rightarrow> emit ev w
      | None \<Rightarrow> emit (FsRename d q) (emit ev w\<lparr>files := (files w)(d := None, q \<mapsto> data)\<rparr>))"
  using assms by (simp add: os_Rename_def emit_def split: option.splits)

text \<open>
  C2. Take a request with a checksum reference whose stream phase succeeded, so that
  the downloaded bytes are in the in-progress file, and whose expected digest differs
  from the digest of those bytes. Then the attempt returns the validation error
  (wrapping the mismatch), nothing is done to the committed path and its entry is
  what it was before, so no committed entry is produced. If the quarantine rename does
  not fail, the in-progress name is free afterwards and the downloaded bytes are at
  the quarantine name, the rename being the last logged event; if it fails, its
  error appears nowhere in the result, which is still the validation error, and the
  files are as the stream phase left them.
\<close>

theorem C2_checksum_enforcement:
  assumes "SHA r = Some sha"
    and "stream_to_file env w r = (w1, None)"
    and "fetch_checksum env (ref sha) (URL r) = Inr expected"
    and "digest env (contents w1 (cacheDownloadingFileName env (URL r))) \<noteq> expected"
  shows "snd (downloadFile env w r)
           = Some (Errorf (validate_msg (URL r))
               (ChecksumMismatch expected
                 (digest env (contents w1 (cacheDownloadingFileName env (URL r))))))
    \<and> quiet_on (CacheFilename env (URL r)) w (fst (downloadFile env w r))
    \<and> (case Rename_err env (cacheDownloadingFileName env (URL r))
               (cacheDownloadingFileName env (URL r) @ ''.invalid'') of
         None \<Rightarrow>
           files (fst (downloadFile env w r)) (cacheDownloadingFileName env (URL r)) = None
           \<and> files (fst (downloadFile env w r))
                (cacheDownloadingFileName env (URL r) @ ''.invalid'')
               = Some (contents w1 (cacheDownloadingFileName env (URL r)))
           \<and> last (trace (fst (downloadFile env w r)))
               = FsRename (cacheDownloadingFileName env (URL r))
                   (cacheDownloadingFileName env (URL r) @ ''.invalid'')
       | Some m \<Rightarrow> files (fst (downloadFile env w r)) = files w1)"
proof -
  let ?c = "CacheFilename env (URL r)"
  let ?d = "cacheDownloadingFileName env (URL r)"
  let ?q = "?d @ ''.invalid''"
  obtain data where d: "files w1 ?d = Some data"
    using stream_to_file_exists [OF assms(2)] by auto
  then have cd: "contents w1 ?d = data" by (simp add: contents_def)
  have v: "snd (validateDownload env sha w1 (URL r) ?d)
             = Some (ChecksumMismatch expected (digest env data))"
    using assms(3) d assms(4) [unfolded cd] by (rule validateDownload_mismatch)
  have qd: "?q \<noteq> ?d" by simp
  have df: "downloadFile env w r =
     (case Rename_err env ?d ?q of
        Some m \<Rightarrow> emit (ValidateSHA (URL r) ?d) w1
      | None \<Rightarrow> emit (FsRename ?d ?q)
          (emit (ValidateSHA (URL r) ?d) w1\<lparr>files := (files w1)(?d := None, ?q \<mapsto> data)\<rparr>),
      Some (Errorf (validate_msg (URL r)) (ChecksumMismatch expected (digest env data))))"
    using downloadFile_rejected [OF assms(1,2) v] quarantine_rename [OF d qd] by simp
  have q1: "quiet_on ?c w w1"
    using stream_to_file_quiet [of env r w] assms(2) by simp
  have "quiet_on ?c w1 (fst (downloadFile env w r))"
    unfolding df using names_distinct [of env "URL r"]
    by (auto simp: quiet_on_def only_events_iff emit_def split: option.splits)
  then have q: "quiet_on ?c w (fst (downloadFile env w r))"
    using q1 by (rule quiet_on_trans [rotated])
  show ?thesis
    unfolding cd using q unfolding df
    by (auto simp: emit_def split: option.splits)
qed

theorem C2_checksum_enforcement_witness:
  "snd (downloadFile env_mismatch w0 r0)
     = Some (Errorf (validate_msg ''u'') (ChecksumMismatch ''other'' ''ok''))
   \<and> files (fst (downloadFile env_mismatch w0 r0)) ''/c/caches/u'' = None
   \<and> files (fst (downloadFile env_mismatch w0 r0)) ''/c/caches/u.downloading'' = None
   \<and> files (fst (downloadFile env_mismatch w0 r0)) ''/c/caches/u.downloading.invalid''
       = Some [1, 2, 3]"
proof -
  have s: "snd (stream_to_file env_mismatch w0 r0) = None"
    by (simp add: model_defs env_mismatch_def env0_def w0_def r0_def)
  then have p: "stream_to_file env_mismatch w0 r0 = (fst (stream_to_file env_mismatch w0 r0), None)"
    by (metis prod.collapse)
  have c: "contents (fst (stream_to_file env_mismatch w0 r0))
             (cacheDownloadingFileName env_mismatch (URL r0)) = [1, 2, 3]"
    by (simp add: model_defs env_mismatch_def env0_def w0_def r0_def)
  have h1: "SHA r0 = Some \<lparr>ref = ''s''\<rparr>" by (simp add: r0_def)
  have h3: "fetch_checksum env_mismatch (ref \<lparr>ref = ''s''\<rparr>) (URL r0) = Inr ''other''"
    by (simp add: env_mismatch_def)
  have h4: "digest env_mismatch (contents (fst (stream_to_file env_mismatch w0 r0))
             (cacheDownloadingFileName env_mismatch (URL r0))) \<noteq> ''other''"
    unfolding c by (simp add: env_mismatch_def env0_def)
  have n: "CacheFilename env_mismatch ''u'' = ''/c/caches/u''"
    "cacheDownloadingFileName env_mismatch ''u'' = ''/c/caches/u.downloading''"
    "Rename_err env_mismatch a b = None" "URL r0 = ''u''"
    "digest env_mismatch [1, 2, 3] = ''ok''" "files w0 ''/c/caches/u'' = None" for a b
    by (simp_all add: CacheFilename_def cacheDownloadingFileName_def env_mismatch_def
        env0_def r0_def w0_def)
  show ?thesis
    using C2_checksum_enforcement [OF h1 p h3 h4] unfolding c
    by (simp add: n quiet_on_def)
qed

text \<open>
  C7. The cache-hit check reads nothing but the entry at the committed path: putting
  any file at the quarantine name of a URL does not change the answer of \<open>hasCache\<close>
  for that URL. After an attempt whose stream succeeded, whose validation failed and
  whose quarantine rename did not fail, the downloaded bytes are at the quarantine
  name, the in-progress name is free, and the cache-hit check answers as it did
  before the attempt (so it is still a miss when it was one). A later attempt in any
  environment with the same cache root and hash, whose directory preparation, open,
  stat and request construction do not fail, creates the in-progress file anew at the
  same temporary name, empty, and sends its request without a Range header.
\<close>

theorem C7_quarantine_invariant:
  assumes "SHA r = Some sha"
    and "stream_to_file env w r = (w1, None)"
    and "snd (validateDownload env sha w1 (URL r) (cacheDownloadingFileName env (URL r))) = Some e"
    and "Rename_err env (cacheDownloadingFileName env (URL r))
           (cacheDownloadingFileName env (URL r) @ ''.invalid'') = None"
    and "CacheDir env2 = CacheDir env" and "SHA256 env2 = SHA256 env"
    and "MkdirAll_err env2 = None" and "OpenFile_err env2 = None"
    and "Stat_err env2 = None" and "NewRequest_err env2 (URL r) = None"
  shows "hasCache env (wa\<lparr>files := (files wa)(cacheDownloadingFileName env url @ ''.invalid''
                                              \<mapsto> data)\<rparr>) url = hasCache env wa url
    \<and> files (fst (downloadFile env w r)) (cacheDownloadingFileName env (URL r) @ ''.invalid'')
        = Some (contents w1 (cacheDownloadingFileName env (URL r)))
    \<and> files (fst (downloadFile env w r)) (cacheDownloadingFileName env (URL r)) = None
    \<and> hasCache env2 (fst (downloadFile env w r)) (URL r) = hasCache env w (URL r)
    \<and> new_events (fst (downloadFile env w r))
          (fst (open_and_request env2 (fst (downloadFile env w r)) r))
        = [FsCreate (cacheDownloadingFileName env (URL r)),
           HttpGet \<lparr>req_URL = URL r, Range = None\<rparr>]
    \<and> files (fst (open_and_request env2 (fst (downloadFile env w r)) r))
          (cacheDownloadingFileName env (URL r)) = Some []"
proof -
  let ?c = "CacheFilename env (URL r)"
  let ?d = "cacheDownloadingFileName env (URL r)"
  let ?q = "?d @ ''.invalid''"
  let ?w' = "fst (downloadFile env w r)"
  obtain dat where d: "files w1 ?d = Some dat"
    using stream_to_file_exists [OF assms(2)] by auto
  then have cd: "contents w1 ?d = dat" by (simp add: contents_def)
  have qd: "?q \<noteq> ?d" by simp
  have w': "?w' = emit (FsRename ?d ?q)
      (emit (ValidateSHA (URL r) ?d) w1\<lparr>files := (files w1)(?d := None, ?q \<mapsto> dat)\<rparr>)"
    using downloadFile_rejected [OF assms(1,2,3)] quarantine_rename [OF d qd] assms(4)
    by simp
  have names: "CacheFilename env2 (URL r) = ?c" "cacheDownloadingFileName env2 (URL r) = ?d"
    using assms(5,6) by (simp_all add: CacheFilename_def cacheDownloadingFileName_def)
  have a: "hasCache env (wa\<lparr>files := (files wa)(cacheDownloadingFileName env url @ ''.invalid''
      \<mapsto> data)\<rparr>) url = hasCache env wa url"
    using names_distinct(2) [of env url] by (simp add: hasCache_def)
  have b: "files ?w' ?q = Some (contents w1 ?d)" "files ?w' ?d = None"
    unfolding w' cd by (simp_all add: emit_def)
  have "files w1 ?c = files w ?c"
    using stream_to_file_quiet [of env r w] assms(2) by (simp add: quiet_on_def)
  then have c: "hasCache env2 ?w' (URL r) = hasCache env w (URL r)"
    unfolding w' using names_distinct [of env "URL r"]
    by (simp add: hasCache_def names emit_def)
  have o: "open_and_request env2 ?w' r =
     (emit (HttpGet \<lparr>req_URL = URL r, Range = None\<rparr>)
        (emit (FsCreate ?d) (?w'\<lparr>files := (files ?w')(?d \<mapsto> [])\<rparr>)),
      case client_Do env2 \<lparr>req_URL = URL r, Range = None\<rparr> of
        Inl m \<Rightarrow> Inl (Errorf ''error during download'' (External m))
      | Inr resp \<Rightarrow> Inr (0, resp))"
    using assms(7-10) b(2)
    by (simp add: open_and_request_def os_OpenFile_def File_Stat_Size_def contents_def
        names emit_def Let_def split: sum.splits)
  have e: "new_events ?w' (fst (open_and_request env2 ?w' r))
      = [FsCreate ?d, HttpGet \<lparr>req_URL = URL r, Range = None\<rparr>]"
    unfolding o by (simp add: new_events_def emit_def)
  have f: "files (fst (open_and_request env2 ?w' r)) ?d = Some []"
    unfolding o by (simp add: emit_def)
  show ?thesis using a b c e f by simp
qed

theorem C7_quarantine_invariant_witness:
  "files (fst (downloadFile env_mismatch w0 r0)) ''/c/caches/u.downloading.invalid''
     = Some [1, 2, 3]
   \<and> files (fst (downloadFile env_mismatch w0 r0)) ''/c/caches/u.downloading'' = None
   \<and> hasCache env0 (fst (downloadFile env_mismatch w0 r0)) ''u'' = False
   \<and> new_events (fst (downloadFile env_mismatch w0 r0))
        (fst (open_and_request env0 (fst (downloadFile env_mismatch w0 r0)) r0))
       = [FsCreate ''/c/caches/u.downloading'', HttpGet \<lparr>req_URL = ''u'', Range = None\<rparr>]"
proof -
  have s: "snd (stream_to_file env_mismatch w0 r0) = None"
    by (simp add: model_defs env_mismatch_def env0_def w0_def r0_def)
  then have p: "stream_to_file env_mismatch w0 r0 = (fst (stream_to_file env_mismatch w0 r0), None)"
    by (metis prod.collapse)
  have c: "contents (fst (stream_to_file env_mismatch w0 r0))
             (cacheDownloadingFileName env_mismatch (URL r0)) = [1, 2, 3]"
    by (simp add: model_defs env_mismatch_def env0_def w0_def r0_def)
  have h1: "SHA r0 = Some \<lparr>ref = ''s''\<rparr>" by (simp add: r0_def)
  have h3: "snd (validateDownload env_mismatch \<lparr>ref = ''s''\<rparr> (fst (stream_to_file env_mismatch w0 r0))
      (URL r0) (cacheDownloadingFileName env_mismatch (URL r0)))
      = Some (ChecksumMismatch ''other'' ''ok'')"
    by (simp add: model_defs env_mismatch_def env0_def w0_def r0_def)
  have h4: "Rename_err env_mismatch (cacheDownloadingFileName env_mismatch (URL r0))
           (cacheDownloadingFileName env_mismatch (URL r0) @ ''.invalid'') = None"
    by (simp add: env_mismatch_def env0_def)
  have h5: "CacheDir env0 = CacheDir env_mismatch" "SHA256 env0 = SHA256 env_mismatch"
    "MkdirAll_err env0 = None" "OpenFile_err env0 = None" "Stat_err env0 = None"
    "NewRequest_err env0 (URL r0) = None"
    by (simp_all add: env_mismatch_def env0_def)
  have n: "CacheFilename env_mismatch ''u'' = ''/c/caches/u''"
    "cacheDownloadingFileName env_mismatch ''u'' = ''/c/caches/u.downloading''"
    "URL r0 = ''u''" "hasCache env_mismatch w0 ''u'' = False"
    by (simp_all add: CacheFilename_def cacheDownloadingFileName_def env_mismatch_def
        env0_def r0_def w0_def hasCache_def)
  show ?thesis
    using C7_quarantine_invariant [OF h1 p h3 h4 h5] unfolding c
    by (simp add: n)
qed

subsection \<open>Cache hits\<close>

lemma count_HttpGet_split:
  "extends_log w w1 \<Longrightarrow> extends_log w1 w2 \<Longrightarrow>
   count_HttpGet w w2 = count_HttpGet w w1 + count_HttpGet w1 w2"
  by (simp add: count_HttpGet_def new_events_split)

lemma count_HttpGet_none:
  "only_events (\<lambda>ev. \<not> is_HttpGet ev) w w' \<Longrightarrow> count_HttpGet w w' = 0"
  by (auto simp: count_HttpGet_def only_events_def list_all_iff filter_empty_conv)

lemma open_and_request_one_get:
  assumes "open_and_request env w r = (w1, Inr x)"
  shows "extends_log w w1 \<and> count_HttpGet w w1 = 1"
  using assms
  by (auto simp: open_and_request_def os_OpenFile_def extends_log_def count_HttpGet_def
      new_events_def emit_def Let_def split: option.splits sum.splits prod.splits)

lemma stream_to_file_one_get:
  assumes "stream_to_file env w r = (w3, None)"
  shows "extends_log w w3 \<and> count_HttpGet w w3 = 1"
proof (cases rule: stream_to_file_cases [of env w r])
  case (request_failed w1 e)
  then show ?thesis using assms by simp
next
  case (negotiation_failed w1 currentSize resp w2 e)
  then show ?thesis using assms by simp
next
  case (copied wa currentSize resp wb off progress wc p3 res)
  let ?d = "cacheDownloadingFileName env (URL r)"
  let ?P = "\<lambda>ev. \<not> is_HttpGet ev"
  have wc: "wc = w3" using copied(4) assms by simp
  have a: "extends_log w wa" "count_HttpGet w wa = 1"
    using open_and_request_one_get [OF copied(1)] by simp_all
  have cd: "CacheFilename env (URL r) \<noteq> ?d" by (rule names_distinct)
  have "only_events ?P wa (fst (negotiate env wa ?d currentSize resp))"
    using negotiate_frame [of ?P ?d _ wa env currentSize resp, OF _ cd] by simp
  then have b: "only_events ?P wa wb" using copied(2) by simp
  have "only_events ?P wb (fst (io_Copy env ?d off progress 0 (Body resp) (BodyErr resp) wb))"
    using io_Copy_frame [of ?P ?d _ wb env off progress 0 "Body resp" "BodyErr resp", OF _ _ cd]
    by simp
  then have c: "only_events ?P wb wc" using copied(3) by simp
  have bc: "only_events ?P wa wc" using b c by (rule only_events_trans)
  have "extends_log wa wc" using bc by (rule only_events_extends)
  moreover have "count_HttpGet wa wc = 0" using bc by (rule count_HttpGet_none)
  ultimately show ?thesis
    using a count_HttpGet_split [of w wa wc] unfolding wc
    by (auto simp: extends_log_iff)
qed

lemma downloadFile_one_get:
  assumes "downloadFile env w r = (w', None)"
  shows "count_HttpGet w w' = 1 \<and> files w' (CacheFilename env (URL r)) \<noteq> None"
proof -
  obtain w1 res1 where s: "stream_to_file env w r = (w1, res1)"
    by (cases "stream_to_file env w r")
  have r1: "res1 = None" using assms s by (cases res1) (simp_all add: downloadFile_def)
  have v: "validate_and_commit env w1 r = (w', None)"
    using assms s r1 by (simp add: downloadFile_def)
  from validate_and_commit_ok [OF v] obtain data where
    f: "files w' = (files w1)(cacheDownloadingFileName env (URL r) := None,
                              CacheFilename env (URL r) \<mapsto> data)"
    and t: "trace w' = trace w1
          @ (case SHA r of None \<Rightarrow> []
             | Some sha \<Rightarrow> [ValidateSHA (URL r) (cacheDownloadingFileName env (URL r))])
          @ [FsRename (cacheDownloadingFileName env (URL r)) (CacheFilename env (URL r))]"
    by blast
  have a: "extends_log w w1" "count_HttpGet w w1 = 1"
    using stream_to_file_one_get [OF s [unfolded r1]] by simp_all
  have b: "extends_log w1 w'" using t by (auto simp: extends_log_iff)
  have c: "count_HttpGet w1 w' = 0"
    using t by (simp add: count_HttpGet_def new_events_def split: option.splits)
  show ?thesis using a b c f count_HttpGet_split [of w w1 w'] by simp
qed

lemma Download_hit:
  "hasCache env w (URL r) \<Longrightarrow> Download env w r = (w, Inr (CacheFilename env (URL r)))"
  by (simp add: Download_def)

text \<open>
  C3. If an entry exists at the committed path of the URL, \<open>Download\<close> returns that
  path and the world is exactly what it was: nothing is logged, so there is no
  request, no validation and no file-system change. Consequently, when a call of
  \<open>Download\<close> succeeds, a second call for the same request (in any environment with
  the same cache root and hash) returns the same path and leaves the world as the
  first call left it, so the two calls together issue exactly one HTTP request when
  the first call started from a miss, and none when it started from a hit.
\<close>

theorem C3_idempotent_cache_hit:
  "(hasCache env wa (URL r) \<longrightarrow> Download env wa r = (wa, Inr (CacheFilename env (URL r))))
   \<and> (Download env w r = (w1, Inr p) \<and> CacheDir env2 = CacheDir env \<and> SHA256 env2 = SHA256 env
        \<longrightarrow> p = CacheFilename env (URL r)
            \<and> Download env2 w1 r = (w1, Inr p)
            \<and> count_HttpGet w (fst (Download env2 w1 r))
                = (if hasCache env w (URL r) then 0 else 1))"
proof (intro conjI impI)
  show "Download env wa r = (wa, Inr (CacheFilename env (URL r)))" if "hasCache env wa (URL r)"
    using that by (rule Download_hit)
next
  assume a: "Download env w r = (w1, Inr p) \<and> CacheDir env2 = CacheDir env
    \<and> SHA256 env2 = SHA256 env"
  then have names: "CacheFilename env2 (URL r) = CacheFilename env (URL r)"
    by (simp add: CacheFilename_def)
  show p: "p = CacheFilename env (URL r)"
    using a by (auto simp: Download_def split: if_splits prod.splits option.splits)
  have k: "hasCache env2 w1 (URL r)
      \<and> count_HttpGet w w1 = (if hasCache env w (URL r) then 0 else 1)"
  proof (cases "hasCache env w (URL r)")
    case True
    then have "w1 = w" using a by (simp add: Download_def)
    then show ?thesis using True
      by (simp add: hasCache_def names count_HttpGet_def new_events_def)
  next
    case False
    then have "downloadFile env w r = (w1, None)"
      using a by (auto simp: Download_def split: prod.splits option.splits)
    then show ?thesis using False downloadFile_one_get [of env w r w1]
      by (simp add: hasCache_def names)
  qed
  then show d: "Download env2 w1 r = (w1, Inr p)"
    using Download_hit [of env2 w1 r] names p by simp
  show "count_HttpGet w (fst (Download env2 w1 r)) = (if hasCache env w (URL r) then 0 else 1)"
    using k d by simp
qed

theorem C3_idempotent_cache_hit_witness:
  "snd (Download env0 w0 r0) = Inr ''/c/caches/u''
   \<and> Download env0 (fst (Download env0 w0 r0)) r0
       = (fst (Download env0 w0 r0), Inr ''/c/caches/u'')
   \<and> count_HttpGet w0 (fst (Download env0 (fst (Download env0 w0 r0)) r0)) = 1"
proof -
  have s: "snd (Download env0 w0 r0) = Inr ''/c/caches/u''"
    by (simp add: Download_def hasCache_def model_defs env0_def w0_def r0_def)
  then have p: "Download env0 w0 r0 = (fst (Download env0 w0 r0), Inr ''/c/caches/u'')"
    by (metis prod.collapse)
  have m: "\<not> hasCache env0 w0 (URL r0)"
    by (simp add: hasCache_def w0_def)
  note t = C3_idempotent_cache_hit [of env0 w0 r0 w0 "fst (Download env0 w0 r0)"
        "''/c/caches/u''" env0]
  have "Download env0 (fst (Download env0 w0 r0)) r0
          = (fst (Download env0 w0 r0), Inr ''/c/caches/u'')
      \<and> count_HttpGet w0 (fst (Download env0 (fst (Download env0 w0 r0)) r0))
          = (if hasCache env0 w0 (URL r0) then 0 else 1)"
    using t [THEN conjunct2, THEN mp, OF conjI [OF p conjI [OF refl refl]]]
    by (rule conjunct2)
  then have "Download env0 (fst (Download env0 w0 r0)) r0
          = (fst (Download env0 w0 r0), Inr ''/c/caches/u'')
      \<and> count_HttpGet w0 (fst (Download env0 (fst (Download env0 w0 r0)) r0)) = 1"
    using m by auto
  then show ?thesis using s by blast
qed

subsection \<open>The response policy\<close>

lemma downloadFile_negotiation_failed:
  assumes "open_and_request env w r = (w1, Inr (currentSize, resp))"
    and "negotiate env w1 (cacheDownloadingFileName env (URL r)) currentSize resp = (w2, Inl e)"
  shows "downloadFile env w r = (w2, Some e)"
  using assms by (simp add: downloadFile_def stream_to_file_def)

lemma negotiate_416:
  assumes "StatusCode resp = 416"
  shows "negotiate env w name currentSize resp =
     (case Truncate_err env of
        None \<Rightarrow> (emit (FsTruncate name) (w\<lparr>files := (files w)(name \<mapsto> [])\<rparr>),
                 Inl (UnexpectedStatus 416))
      | Some m \<Rightarrow> (w, Inl (Errorf ''error truncating file'' (External m))))"
  using assms by (simp add: negotiate_def File_Truncate0_def split: option.splits)

lemma negotiate_other_status:
  assumes "StatusCode resp < 200 \<or> 300 \<le> StatusCode resp" and "StatusCode resp \<noteq> 416"
  shows "negotiate env w name currentSize resp = (w, Inl (UnexpectedStatus (StatusCode resp)))"
  using assms by (auto simp: negotiate_def)

lemma negotiate_2xx_error:
  assumes "200 \<le> StatusCode resp" and "StatusCode resp < 300"
    and "negotiate env w name currentSize resp = (w2, Inl e)"
  shows "e \<noteq> UnexpectedStatus k"
  using assms
  by (auto simp: negotiate_def File_Seek_End_def File_Seek_Start_def
      split: if_splits option.splits)

lemma validate_and_commit_not_status:
  "snd (validate_and_commit env w r) \<noteq> Some (UnexpectedStatus k)"
  by (auto simp: validate_and_commit_def validateDownload_def os_Rename_def Let_def
      split: option.splits sum.splits prod.splits)

lemma downloadFile_2xx_not_status:
  assumes "open_and_request env w r = (w1, Inr (currentSize, resp))"
    and "200 \<le> StatusCode resp" and "StatusCode resp < 300"
  shows "snd (downloadFile env w r) \<noteq> Some (UnexpectedStatus k)"
proof (cases rule: stream_to_file_cases [of env w r])
  case (request_failed w1 e)
  then show ?thesis using assms(1) by simp
next
  case (negotiation_failed wa cs' resp' w2 e)
  then have "negotiate env w1 (cacheDownloadingFileName env (URL r)) currentSize resp = (w2, Inl e)"
    using assms(1) by simp
  then have "e \<noteq> UnexpectedStatus k"
    using assms(2,3) by (intro negotiate_2xx_error)
  then show ?thesis using negotiation_failed(3) by (simp add: downloadFile_def)
next
  case (copied wa cs' resp' wb off progress wc p3 res)
  show ?thesis
  proof (cases res)
    case None
    then show ?thesis using copied(4) validate_and_commit_not_status [of env wc r k]
      by (simp add: downloadFile_def)
  next
    case (Some e)
    then show ?thesis using copied(4) by (simp add: downloadFile_def)
  qed
qed

text \<open>
  What an attempt does with each status, once the request has been sent and answered
  with \<open>resp\<close>: on \<open>416\<close> it truncates the in-progress file and then returns the
  unexpected-status error (or the truncation error, changing nothing, when the
  truncation fails); on every other status outside \<open>[200,300)\<close> it returns the
  unexpected-status error and changes nothing; on a status inside \<open>[200,300)\<close> it
  never returns an unexpected-status error.
\<close>

lemma downloadFile_status_policy:
  assumes "open_and_request env w r = (w1, Inr (currentSize, resp))"
  shows "(StatusCode resp = 416 \<and> Truncate_err env = None \<longrightarrow>
            downloadFile env w r =
              (emit (FsTruncate (cacheDownloadingFileName env (URL r)))
                 (w1\<lparr>files := (files w1)(cacheDownloadingFileName env (URL r) \<mapsto> [])\<rparr>),
               Some (UnexpectedStatus 416)))
       \<and> (\<forall>m. StatusCode resp = 416 \<and> Truncate_err env = Some m \<longrightarrow>
            downloadFile env w r = (w1, Some (Errorf ''error truncating file'' (External m))))
       \<and> ((StatusCode resp < 200 \<or> 300 \<le> StatusCode resp) \<and> StatusCode resp \<noteq> 416 \<longrightarrow>
            downloadFile env w r = (w1, Some (UnexpectedStatus (StatusCode resp))))
       \<and> (200 \<le> StatusCode resp \<and> StatusCode resp < 300 \<longrightarrow>
            (\<forall>k. snd (downloadFile env w r) \<noteq> Some (UnexpectedStatus k)))"
proof (intro conjI impI allI)
  let ?d = "cacheDownloadingFileName env (URL r)"
  show "downloadFile env w r =
      (emit (FsTruncate ?d) (w1\<lparr>files := (files w1)(?d \<mapsto> [])\<rparr>), Some (UnexpectedStatus 416))"
    if "StatusCode resp = 416 \<and> Truncate_err env = None"
    using that negotiate_416 [of resp env w1 ?d currentSize]
    by (intro downloadFile_negotiation_failed [OF assms]) simp
  show "downloadFile env w r = (w1, Some (Errorf ''error truncating file'' (External m)))"
    if "StatusCode resp = 416 \<and> Truncate_err env = Some m" for m
    using that negotiate_416 [of resp env w1 ?d currentSize]
    by (intro downloadFile_negotiation_failed [OF assms]) simp
  show "downloadFile env w r = (w1, Some (UnexpectedStatus (StatusCode resp)))"
    if "(StatusCode resp < 200 \<or> 300 \<le> StatusCode resp) \<and> StatusCode resp \<noteq> 416"
    using that negotiate_other_status [of resp env w1 ?d currentSize]
    by (intro downloadFile_negotiation_failed [OF assms]) simp
  show "snd (downloadFile env w r) \<noteq> Some (UnexpectedStatus k)"
    if "200 \<le> StatusCode resp \<and> StatusCode resp < 300" for k
    using that downloadFile_2xx_not_status [OF assms] by simp
qed

text \<open>
  C4 at a concrete input. Five bytes are in the in-progress file, the request is sent
  with \<open>Range: bytes=5-\<close> and the origin answers \<open>416\<close>. The in-progress file is
  truncated to zero length and the response body is not written, as C4 says: the
  truncation is the only thing done after the request. But the attempt then returns
  the unexpected-status error for \<open>416\<close>: the status check that follows the
  truncation does not exclude \<open>416\<close>, where C4 says that \<open>416\<close> is excluded from
  the abort condition. The length reset to 0 after the truncation is never read.
\<close>

theorem C4_416_truncates_then_aborts:
  "snd (open_and_request env_416 w_partial r_plain) = Inr (5, resp_416)
   \<and> StatusCode resp_416 = 416
   \<and> trace (fst (open_and_request env_416 w_partial r_plain))
       = [HttpGet \<lparr>req_URL = ''u'', Range = Some 5\<rparr>]
   \<and> snd (downloadFile env_416 w_partial r_plain) = Some (UnexpectedStatus 416)
   \<and> files (fst (downloadFile env_416 w_partial r_plain)) ''/c/caches/u.downloading'' = Some []
   \<and> files (fst (downloadFile env_416 w_partial r_plain)) ''/c/caches/u'' = None
   \<and> trace (fst (downloadFile env_416 w_partial r_plain))
       = [HttpGet \<lparr>req_URL = ''u'', Range = Some 5\<rparr>,
          FsTruncate ''/c/caches/u.downloading'']"
  by (simp add: model_defs env_416_def resp_416_def env0_def w_partial_def r_plain_def
      word_sle_eq word_sless_alt)

lemma negotiate_full_response:
  assumes "200 \<le> StatusCode resp" and "StatusCode resp < 300" and "StatusCode resp \<noteq> 206"
    and "Seek_err env = None"
  shows "negotiate env w name currentSize resp =
     (w, Inr (0, \<lparr>Total = ContentLength resp + currentSize, Current = currentSize,
                  lastReport = 0\<rparr>))"
  using assms by (simp add: negotiate_def File_Seek_Start_def newProgress_def)

text \<open>
  C5 at a concrete input. Five bytes are in the in-progress file and the origin
  ignores the Range header, answering \<open>200\<close> with content length 10. The request
  phase reads the size 5 and receives that response; the response policy puts the
  write cursor at 0, as C5 says, but builds the progress meter with total
  \<open>10 + 5 = 15\<close> and current 5: the prior length is added to the total, where C5
  says the total is the content length alone.
\<close>

theorem C5_full_response_total_includes_prior_length:
  "snd (open_and_request env_full w_partial r_plain) = Inr (5, resp_full)
   \<and> snd (negotiate env_full (fst (open_and_request env_full w_partial r_plain))
            (cacheDownloadingFileName env_full (URL r_plain)) 5 resp_full)
       = Inr (0, \<lparr>Total = 15, Current = 5, lastReport = 0\<rparr>)"
  by (simp add: model_defs env_full_def resp_full_def env0_def w_partial_def r_plain_def)

lemma terminal_Progress_blank_iff:
  "terminal_Progress env cur tot = [] \<longleftrightarrow> tot \<le>s 0"
  by (simp add: terminal_Progress_def)

text \<open>
  C8 at a concrete input. Five bytes are in the in-progress file and the origin
  answers \<open>206\<close> with three more bytes and no declared content length
  (\<open>ContentLength = -1\<close>). The meter is built with total \<open>-1 + 5 = 4\<close>, which is
  positive, so the line printed at the first chunk carries a percentage
  (of current 8 against total 4) and not the blank string that C8 requires of a
  transfer of unknown length. This holds for every rendering \<open>f\<close> of the quotient.
\<close>

theorem C8_unknown_length_resumed_prints_percentage:
  "\<forall>f. snd (open_and_request (env_unknown\<lparr>Sprintf_2f := f\<rparr>) w_partial r_plain)
          = Inr (5, resp_unknown)
      \<and> ContentLength resp_unknown = - 1
      \<and> trace (fst (downloadFile (env_unknown\<lparr>Sprintf_2f := f\<rparr>) w_partial r_plain))
          = [HttpGet \<lparr>req_URL = ''u'', Range = Some 5\<rparr>,
             Stdout ([CHR 0x0D] @ ''downloading ... '' @ (f 8 4 @ ''%'') @ '' ''),
             FsWrite ''/c/caches/u.downloading'' 5 [1, 2, 3],
             FsRename ''/c/caches/u.downloading'' ''/c/caches/u'']
      \<and> terminal_Progress (env_unknown\<lparr>Sprintf_2f := f\<rparr>) 8 4 = f 8 4 @ ''%''
      \<and> f 8 4 @ ''%'' \<noteq> []"
  by (simp add: model_defs env_unknown_def resp_unknown_def env0_def w_partial_def r_plain_def
      word_sle_eq word_sless_alt)

subsection \<open>Local paths\<close>

lemma DownloadToGuest_local:
  assumes "strings_HasPrefix (URL r) ''/''"
  shows "DownloadToGuest env w r filename =
     (emit (GuestRun [''cp'', URL r, filename]) w,
      map_option External (RunQuiet env [''cp'', URL r, filename]))"
  using assms by (simp add: DownloadToGuest_def guest_RunQuiet_def)

lemma strings_HasPrefix_slash:
  "strings_HasPrefix s ''/'' \<longleftrightarrow> (\<exists>t. s = CHR ''/'' # t)"
  by (cases s) (auto simp: strings_HasPrefix_def)

text \<open>
  C6. For every request whose URL starts with \<open>/\<close>, \<open>DownloadToGuest\<close> does exactly
  one thing: it runs \<open>cp\<close> in the guest with the URL string as the source and the
  given destination as the target, and returns what that command returns. The single
  event logged is that command, so there is no HTTP request, and no file of the host
  (hence nothing of the cache) is changed.
\<close>

theorem C6_local_path_short_circuit:
  assumes "URL r = CHR ''/'' # rest"
  shows "snd (DownloadToGuest env w r filename)
           = map_option External (RunQuiet env [''cp'', URL r, filename])
    \<and> extends_log w (fst (DownloadToGuest env w r filename))
    \<and> new_events w (fst (DownloadToGuest env w r filename)) = [GuestRun [''cp'', URL r, filename]]
    \<and> count_HttpGet w (fst (DownloadToGuest env w r filename)) = 0
    \<and> files (fst (DownloadToGuest env w r filename)) = files w"
proof -
  have "strings_HasPrefix (URL r) ''/''"
    using assms by (simp add: strings_HasPrefix_slash)
  then show ?thesis
    by (simp add: DownloadToGuest_local emit_def extends_log_def new_events_def
        count_HttpGet_def)
qed

theorem C6_local_path_short_circuit_witness:
  "snd (DownloadToGuest env0 w0 r_local ''/dst'') = None
   \<and> new_events w0 (fst (DownloadToGuest env0 w0 r_local ''/dst''))
       = [GuestRun [''cp'', ''/f'', ''/dst'']]
   \<and> files (fst (DownloadToGuest env0 w0 r_local ''/dst'')) = Map.empty"
proof -
  have u: "URL r_local = CHR ''/'' # ''f''" by (simp add: r_local_def)
  show ?thesis
    using C6_local_path_short_circuit [OF u, of env0 w0 "''/dst''"]
    by (simp add: u env0_def w0_def)
qed

text \<open>
  C10. For every request whose URL starts with \<open>/\<close>, the checksum reference plays no
  part: \<open>DownloadToGuest\<close> gives the same result and the same world whatever the
  \<open>SHA\<close> field holds, in particular the same as with no checksum reference, and the
  validator is never invoked.
\<close>

theorem C10_local_path_checksum_ignored:
  assumes "URL r = CHR ''/'' # rest"
  shows "DownloadToGuest env w (r\<lparr>SHA := s\<rparr>) filename
           = DownloadToGuest env w (r\<lparr>SHA := None\<rparr>) filename
    \<and> filter is_ValidateSHA (new_events w (fst (DownloadToGuest env w (r\<lparr>SHA := s\<rparr>) filename)))
        = []"
proof -
  have "strings_HasPrefix (URL (r\<lparr>SHA := s'\<rparr>)) ''/''" for s'
    using assms by (simp add: strings_HasPrefix_slash)
  then show ?thesis
    by (simp add: DownloadToGuest_local emit_def new_events_def)
qed

theorem C10_local_path_checksum_ignored_witness:
  "DownloadToGuest env0 w0 r_local ''/dst''
     = DownloadToGuest env0 w0 (r_local\<lparr>SHA := None\<rparr>) ''/dst''
   \<and> filter is_ValidateSHA (new_events w0 (fst (DownloadToGuest env0 w0 r_local ''/dst''))) = []"
proof -
  have u: "URL r_local = CHR ''/'' # ''f''" by (simp add: r_local_def)
  have s: "r_local\<lparr>SHA := Some \<lparr>ref = ''s''\<rparr>\<rparr> = r_local" by (simp add: r_local_def)
  show ?thesis
    using C10_local_path_checksum_ignored [OF u, of env0 w0 "Some \<lparr>ref = ''s''\<rparr>" "''/dst''"]
    unfolding s .
qed

end
